theory Spec2Isabelle
  imports Main
begin

section \<open>Troubleshooting commands of the tournaments cog\<close>

text \<open>
  A shallow embedding of \<^verbatim>\<open>src/tournaments/troubleshooting.py\<close>: the commands of the
  \<^verbatim>\<open>tournamentfix\<close> group. Each command is a function from the cog's state (the
  dictionary \<^verbatim>\<open>self.tournaments\<close> and the saved data \<^verbatim>\<open>self.data\<close>) to the new state,
  together with the exception that left the command (if any) and the trace of the calls
  it made, in order: messages sent, log lines, and calls to collaborators.

  The collaborators the file calls but does not define (\<^verbatim>\<open>_restore_tournament\<close>,
  \<^verbatim>\<open>ChallongeTournament.show\<close>, \<^verbatim>\<open>channel.delete\<close>, \<^verbatim>\<open>remove_roles\<close>) are
  parameters, collected in the record \<open>env\<close>; a call the source wraps in \<^verbatim>\<open>try\<close> has an
  outcome that may be the exception the \<^verbatim>\<open>except\<close> clause names, or one it does not
  name. The body of the loop task, which \<^verbatim>\<open>resumetask\<close> and \<^verbatim>\<open>runtaskonce\<close> run once, is
  the tick of the specification, with the answers of its collaborators as parameters.
  Of the calls the source does not guard, the fetch from the bracket service may raise,
  and its exception leaves the command; the others (\<^verbatim>\<open>ctx.send\<close>, the loggers,
  \<^verbatim>\<open>save\<close>, the writes of the saved data) return normally.
  The checks of the parent group (\<^verbatim>\<open>mod_or_to\<close>, \<^verbatim>\<open>guild_only\<close>) are permission checks
  and are not part of the model.
\<close>

subsection \<open>Data\<close>

type_synonym guild_id = nat
type_synonym channel_id = nat
type_synonym role_id = nat
type_synonym member_id = nat

text \<open>The phases of a tournament; \<^verbatim>\<open>only_phase\<close> is given \<^verbatim>\<open>"ongoing"\<close>,
  \<^verbatim>\<open>"register"\<close> and \<^verbatim>\<open>"checkin"\<close> in the source.\<close>

datatype phase = Pending | Register | Checkin | Awaiting | Ongoing | Finished

datatype match_status = Match_pending | Match_ongoing | Match_finished | Match_flagged_afk

text \<open>A match. The source reads \<^verbatim>\<open>x.channel\<close>. The status, the last-activity timestamp
  and the flag that disables AFK flagging are the fields the specification gives a match.\<close>

record match =
  match_id :: nat
  channel :: "channel_id option"
  status :: match_status
  last_activity :: nat
  afk_disabled :: bool

datatype loop_handle = Loop_handle

text \<open>The tournament object. The source reads or writes \<^verbatim>\<open>id\<close>, \<^verbatim>\<open>name\<close>, \<^verbatim>\<open>limit\<close>,
  \<^verbatim>\<open>matches\<close>, \<^verbatim>\<open>participants\<close>, \<^verbatim>\<open>participant_role\<close> and \<^verbatim>\<open>task\<close>; \<^verbatim>\<open>only_phase\<close>
  reads the phase. The four times are the "register and check-in start/end time" of the
  docstring of \<^verbatim>\<open>tournamentfix_refresh\<close>.\<close>

record tournament =
  t_id :: nat
  name :: string
  limit :: "nat option"
  phase :: phase
  participants :: "member_id list"
  matches :: "match list"
  participant_role :: "role_id option"
  task :: "loop_handle option"
  register_start :: "nat option"
  register_stop :: "nat option"
  checkin_start :: "nat option"
  checkin_stop :: "nat option"

text \<open>What \<^verbatim>\<open>self.data.guild(guild).tournament\<close> holds: the empty dictionary \<^verbatim>\<open>{}\<close>
  (the empty marker, falsy in Python) or a saved tournament.\<close>

datatype stored = Empty_marker | Snapshot tournament

record world =
  tournaments :: "guild_id \<rightharpoonup> tournament"
  data :: "guild_id \<Rightarrow> stored"

datatype exn = Exception string

datatype error =
    NoActiveTournament
  | PhaseMismatch phase "phase list"
  | KeyError guild_id
  | Raised exn

datatype message =
    Reload_failed
  | Reloaded
  | Already_setup
  | Nothing_on_disk
  | Restore_failed
  | Restored
  | Hardreset_confirm
  | Timed_out
  | Cancelled
  | Hardreset_done
  | Matches_reset
  | Matches_reset_deleting
  | Channels_deleted
  | Channels_deleted_failed nat
  | Participants_reset
  | Participants_reset_removing
  | Roles_removed
  | Roles_removed_failed nat
  | Refreshed
  | Task_not_active
  | Task_stopped
  | Resume_failed
  | Resumed
  | Runonce_failed

datatype event =
    Send message
  | Log_error exn
  | Log_info
  | Typing
  | Add_reactions
  | Wait_for_reaction
  | Tick_reaction
  | Sleep nat
  | Save guild_id
  | Restore_tournament guild_id
  | Set_empty guild_id
  | Stop_loop_task guild_id
  | Start_loop_task guild_id
  | Run_loop_coro guild_id
  | Channel_delete channel_id
  | Remove_roles member_id "role_id option"
  | Challonge_show nat

type_synonym result = "error option \<times> world \<times> event list"

text \<open>The outcome of \<^verbatim>\<open>channel.delete()\<close> and of \<^verbatim>\<open>remove_roles\<close>: the call returns, or
  raises \<^verbatim>\<open>discord.HTTPException\<close> (the class the source catches; the library's
  \<^verbatim>\<open>Forbidden\<close> and \<^verbatim>\<open>NotFound\<close> are subclasses of it), or raises an exception of
  another class, which the \<^verbatim>\<open>except\<close> clause lets through.\<close>

datatype outcome = Done | HTTPException | Other_exception exn

text \<open>The answer to the confirmation of \<^verbatim>\<open>hardreset\<close>: \<^verbatim>\<open>wait_for\<close> times out, or the
  predicate's result is \<^verbatim>\<open>False\<close> or \<^verbatim>\<open>True\<close>.\<close>

datatype reaction = Timeout | Answered bool

record challonge_data =
  data_name :: string
  data_limit :: "nat option"

text \<open>What a stage of the tick gets from its collaborators: an answer, a transient error
  (network, rate limit) or a fatal one (section 7 of the specification).\<close>

datatype 'a answer = Answer 'a | Transient_error | Fatal_error exn

text \<open>The collaborators' side of one tick: the time, the inactivity threshold and the
  grace period, and for each stage what the bracket service or the platform answers.
  Stage 1 is told the participants added and removed remotely, stage 2 the identifiers
  of the new pairings and of the matches completed remotely, stage 3 the venue created
  for a match (by identifier; none when its prerequisites are not met or the creation
  failed), stage 5 which venues are gone once their deletion was asked for.\<close>

record remote =
  tick_time :: nat
  inactivity_threshold :: nat
  grace_period :: nat
  participants_answer :: "(member_id list \<times> member_id list) answer"
  matches_answer :: "(nat list \<times> nat list) answer"
  venues_answer :: "(nat \<Rightarrow> channel_id option) answer"
  afk_answer :: "unit answer"
  cleanup_answer :: "(channel_id \<Rightarrow> bool) answer"
  streams_answer :: "unit answer"

text \<open>The collaborators. \<open>restore_tournament\<close> is \<^verbatim>\<open>self._restore_tournament(guild)\<close>,
  which reads the saved data of the guild; \<open>answers\<close> is what the collaborators of the
  loop task answer during the one run of it that the command makes.\<close>

record env =
  restore_tournament :: "guild_id \<Rightarrow> stored \<Rightarrow> exn + tournament"
  challonge_show :: "nat \<Rightarrow> exn + challonge_data"
  channel_delete :: "channel_id \<Rightarrow> outcome"
  remove_roles :: "member_id \<Rightarrow> role_id option \<Rightarrow> outcome"
  answers :: remote

subsection \<open>Methods of the tournament object\<close>

definition save :: "guild_id \<Rightarrow> tournament \<Rightarrow> world \<Rightarrow> world" where
  \<comment> \<open>Modelled from the spec: \<^verbatim>\<open>Tournament.save\<close> (objects.py is not among the sources).
      "Persist: write the full updated aggregate snapshot to the Persistence Store."\<close>
  "save g t w = w\<lparr>data := (data w)(g := Snapshot t)\<rparr>"

definition disable_afk :: "match \<Rightarrow> match" where
  \<comment> \<open>Modelled from the spec: what a pause does to one match (objects.py is not among
      the sources). "Every ongoing match has AFK flagging disabled."\<close>
  "disable_afk m = (if status m = Match_ongoing then m\<lparr>afk_disabled := True\<rparr> else m)"

definition stop_loop_task :: "tournament \<Rightarrow> tournament" where
  \<comment> \<open>Modelled from the spec: \<^verbatim>\<open>Tournament.stop_loop_task\<close> (objects.py is not among the
      sources). "Pause: stopping the scheduled cadence without discarding the aggregate.
      On pause, every ongoing match has AFK flagging disabled, persisted as a per-match
      flag"; the handle is "empty if paused".\<close>
  "stop_loop_task t = t\<lparr>task := None, matches := map disable_afk (matches t)\<rparr>"

definition start_loop_task :: "tournament \<Rightarrow> tournament" where
  \<comment> \<open>Modelled from the spec: \<^verbatim>\<open>Tournament.start_loop_task\<close> (objects.py is not among the
      sources). "Resume: re-enabling the scheduled cadence"; the aggregate owns the handle
      of the running loop.\<close>
  "start_loop_task t = t\<lparr>task := Some Loop_handle\<rparr>"

definition register_tournament :: "guild_id \<Rightarrow> tournament \<Rightarrow> world \<Rightarrow> world" where
  \<comment> \<open>\<^verbatim>\<open>self.tournaments[guild.id] = t\<close>, and every change of the registered object\<close>
  "register_tournament g t w = w\<lparr>tournaments := (tournaments w)(g \<mapsto> t)\<rparr>"

definition unregister :: "guild_id \<Rightarrow> world \<Rightarrow> world" where
  \<comment> \<open>\<^verbatim>\<open>del self.tournaments[guild.id]\<close>\<close>
  "unregister g w = w\<lparr>tournaments := (tournaments w)(g := None)\<rparr>"

subsection \<open>The phase gate\<close>

definition check_phase :: "phase list \<Rightarrow> world \<Rightarrow> guild_id \<Rightarrow> error option" where
  \<comment> \<open>Modelled from the spec: the check of \<^verbatim>\<open>only_phase\<close> (utils.py is not among the
      sources). "An operation invoked while the tenant has no live aggregate fails with
      NoActiveTournament. An operation invoked while the aggregate's phase is not in its
      declared allowed set fails with PhaseMismatch(current, allowed)"; no phase listed
      means any phase.\<close>
  "check_phase allowed w g =
     (case tournaments w g of
        None \<Rightarrow> Some NoActiveTournament
      | Some t \<Rightarrow>
          if allowed = [] \<or> phase t \<in> set allowed then None
          else Some (PhaseMismatch (phase t) allowed))"

definition only_phase :: "phase list \<Rightarrow> (world \<Rightarrow> guild_id \<Rightarrow> result) \<Rightarrow> world \<Rightarrow> guild_id \<Rightarrow> result" where
  \<comment> \<open>Modelled from the spec: the decorator \<^verbatim>\<open>only_phase\<close>. "This gate is evaluated
      synchronously before any mutation and before any external call."\<close>
  "only_phase allowed body w g =
     (case check_phase allowed w g of
        Some e \<Rightarrow> (Some e, w, [])
      | None \<Rightarrow> body w g)"

subsection \<open>restore\<close>

definition tournamentfix_restore :: "env \<Rightarrow> world \<Rightarrow> guild_id \<Rightarrow> result" where
  \<comment> \<open>lines 78 to 100. After the message of line 88 there is no \<^verbatim>\<open>return\<close>: the
      \<^verbatim>\<open>try\<close> of line 89 runs whatever the saved data is.\<close>
  "tournamentfix_restore env w g =
     (case tournaments w g of
        Some t \<Rightarrow> (None, w, [Send Already_setup])
      | None \<Rightarrow>
          let tr = (if data w g = Empty_marker then [Send Nothing_on_disk] else [])
          in (case restore_tournament env g (data w g) of
                Inl e \<Rightarrow>
                  (None, w, tr @ [Restore_tournament g, Log_error e, Send Restore_failed])
              | Inr t \<Rightarrow>
                  (None, register_tournament g t w,
                   tr @ [Restore_tournament g, Send Restored])))"

subsection \<open>reload\<close>

definition reload_body :: "env \<Rightarrow> world \<Rightarrow> guild_id \<Rightarrow> result" where
  \<comment> \<open>lines 48 to 64\<close>
  "reload_body env w g =
     (case tournaments w g of
        None \<Rightarrow> (Some (KeyError g), w, [])
      | Some t \<Rightarrow>
          let w1 = save g t w;
              w2 = unregister g w1
          in (case restore_tournament env g (data w2 g) of
                Inl e \<Rightarrow>
                  (None, w2, [Save g, Restore_tournament g, Log_error e, Send Reload_failed])
              | Inr t' \<Rightarrow>
                  (None, register_tournament g t' w2,
                   [Save g, Restore_tournament g, Send Reloaded])))"

definition tournamentfix_reload :: "env \<Rightarrow> world \<Rightarrow> guild_id \<Rightarrow> result" where
  \<comment> \<open>\<^verbatim>\<open>@only_phase()\<close>\<close>
  "tournamentfix_reload env = only_phase [] (reload_body env)"

subsection \<open>hardreset\<close>

definition hardreset_body :: "reaction \<Rightarrow> world \<Rightarrow> guild_id \<Rightarrow> result" where
  \<comment> \<open>lines 121 to 143\<close>
  "hardreset_body r w g =
     (let asked = [Send Hardreset_confirm, Add_reactions, Wait_for_reaction]
      in case r of
           Timeout \<Rightarrow> (None, w, asked @ [Send Timed_out])
         | Answered False \<Rightarrow> (None, w, asked @ [Send Cancelled])
         | Answered True \<Rightarrow>
             (case tournaments w g of
                None \<Rightarrow> (Some (KeyError g), w, asked)
              | Some t \<Rightarrow>
                  let w1 = register_tournament g (stop_loop_task t) w;
                      w2 = unregister g w1;
                      w3 = w2\<lparr>data := (data w2)(g := Empty_marker)\<rparr>
                  in (None, w3,
                      asked @ [Stop_loop_task g, Set_empty g, Log_info, Send Hardreset_done])))"

definition tournamentfix_hardreset :: "reaction \<Rightarrow> world \<Rightarrow> guild_id \<Rightarrow> result" where
  \<comment> \<open>\<^verbatim>\<open>@only_phase()\<close>\<close>
  "tournamentfix_hardreset r = only_phase [] (hardreset_body r)"

subsection \<open>resetmatches\<close>

fun delete_channels ::
  "env \<Rightarrow> channel_id list \<Rightarrow> nat \<Rightarrow> event list \<Rightarrow> exn option \<times> nat \<times> event list" where
  \<comment> \<open>the loop of lines 170 to 174; \<open>failed\<close> is the counter, \<open>tr\<close> the calls made so far.
      An exception that is not a \<^verbatim>\<open>discord.HTTPException\<close> leaves the loop.\<close>
  "delete_channels env [] failed tr = (None, failed, tr)"
| "delete_channels env (c # cs) failed tr =
     (case channel_delete env c of
        Done \<Rightarrow> delete_channels env cs failed (tr @ [Channel_delete c])
      | HTTPException \<Rightarrow> delete_channels env cs (failed + 1) (tr @ [Channel_delete c])
      | Other_exception e \<Rightarrow> (Some e, failed, tr @ [Channel_delete c]))"

definition channels_deleted_message :: "nat \<Rightarrow> message" where
  \<comment> \<open>lines 175 to 178: the count is appended only when it is not zero\<close>
  "channels_deleted_message failed =
     (if failed \<noteq> 0 then Channels_deleted_failed failed else Channels_deleted)"

definition resetmatches_body :: "env \<Rightarrow> bool \<Rightarrow> world \<Rightarrow> guild_id \<Rightarrow> result" where
  \<comment> \<open>lines 157 to 178\<close>
  "resetmatches_body env try_delete w g =
     (case tournaments w g of
        None \<Rightarrow> (Some (KeyError g), w, [])
      | Some t \<Rightarrow>
          let channels =
                (if try_delete then [the (channel x). x \<leftarrow> matches t, channel x \<noteq> None]
                 else []);
              t1 = t\<lparr>matches := [], participants := []\<rparr>;
              w1 = save g t1 (register_tournament g t1 w)
          in if \<not> try_delete then (None, w1, [Save g, Send Matches_reset])
             else
               (case delete_channels env channels 0
                       [Save g, Send Matches_reset_deleting, Typing] of
                  (Some e, failed, tr) \<Rightarrow> (Some (Raised e), w1, tr)
                | (None, failed, tr) \<Rightarrow>
                    (None, w1, tr @ [Send (channels_deleted_message failed)])))"

definition tournamentfix_resetmatches :: "env \<Rightarrow> bool \<Rightarrow> world \<Rightarrow> guild_id \<Rightarrow> result" where
  \<comment> \<open>\<^verbatim>\<open>@only_phase("ongoing")\<close>\<close>
  "tournamentfix_resetmatches env try_delete = only_phase [Ongoing] (resetmatches_body env try_delete)"

subsection \<open>resetparticipants\<close>

fun remove_all_roles ::
  "env \<Rightarrow> role_id option \<Rightarrow> member_id list \<Rightarrow> nat \<Rightarrow> event list \<Rightarrow>
   exn option \<times> nat \<times> event list" where
  \<comment> \<open>the loop of lines 203 to 207; \<open>role\<close> is \<^verbatim>\<open>tournament.participant_role\<close>.
      An exception that is not a \<^verbatim>\<open>discord.HTTPException\<close> leaves the loop.\<close>
  "remove_all_roles env role [] failed tr = (None, failed, tr)"
| "remove_all_roles env role (p # ps) failed tr =
     (case remove_roles env p role of
        Done \<Rightarrow> remove_all_roles env role ps failed (tr @ [Remove_roles p role])
      | HTTPException \<Rightarrow> remove_all_roles env role ps (failed + 1) (tr @ [Remove_roles p role])
      | Other_exception e \<Rightarrow> (Some e, failed, tr @ [Remove_roles p role]))"

definition roles_removed_message :: "nat \<Rightarrow> message" where
  \<comment> \<open>lines 208 to 217\<close>
  "roles_removed_message failed =
     (if failed \<noteq> 0 then Roles_removed_failed failed else Roles_removed)"

definition resetparticipants_body :: "env \<Rightarrow> bool \<Rightarrow> world \<Rightarrow> guild_id \<Rightarrow> result" where
  \<comment> \<open>lines 191 to 217\<close>
  "resetparticipants_body env try_remove w g =
     (case tournaments w g of
        None \<Rightarrow> (Some (KeyError g), w, [])
      | Some t \<Rightarrow>
          let ps =
                (if try_remove
                 then (if participant_role t \<noteq> None then participants t else [])
                 else []);
              t1 = t\<lparr>participants := []\<rparr>;
              w1 = save g t1 (register_tournament g t1 w)
          in if \<not> try_remove then (None, w1, [Save g, Send Participants_reset])
             else
               (case remove_all_roles env (participant_role t1) ps 0
                       [Save g, Send Participants_reset_removing, Typing] of
                  (Some e, failed, tr) \<Rightarrow> (Some (Raised e), w1, tr)
                | (None, failed, tr) \<Rightarrow>
                    (None, w1, tr @ [Send (roles_removed_message failed)])))"

definition tournamentfix_resetparticipants :: "env \<Rightarrow> bool \<Rightarrow> world \<Rightarrow> guild_id \<Rightarrow> result" where
  \<comment> \<open>\<^verbatim>\<open>@only_phase("register", "checkin")\<close>\<close>
  "tournamentfix_resetparticipants env try_remove =
     only_phase [Register, Checkin] (resetparticipants_body env try_remove)"

subsection \<open>refresh\<close>

definition refresh_body :: "env \<Rightarrow> world \<Rightarrow> guild_id \<Rightarrow> result" where
  \<comment> \<open>lines 241 to 246; an exception of \<^verbatim>\<open>ChallongeTournament.show\<close> is not caught\<close>
  "refresh_body env w g =
     (case tournaments w g of
        None \<Rightarrow> (Some (KeyError g), w, [])
      | Some t \<Rightarrow>
          (case challonge_show env (t_id t) of
             Inl e \<Rightarrow> (Some (Raised e), w, [Challonge_show (t_id t)])
           | Inr d \<Rightarrow>
               (None,
                register_tournament g (t\<lparr>name := data_name d, limit := data_limit d\<rparr>) w,
                [Challonge_show (t_id t), Send Refreshed])))"

definition tournamentfix_refresh :: "env \<Rightarrow> world \<Rightarrow> guild_id \<Rightarrow> result" where
  \<comment> \<open>\<^verbatim>\<open>@only_phase()\<close>\<close>
  "tournamentfix_refresh env = only_phase [] (refresh_body env)"

subsection \<open>The tick\<close>

text \<open>The body of the loop task (\<^verbatim>\<open>tournament.loop_task.coro\<close>) is in objects.py, which is
  not among the sources. It is modelled from section 4.2 of the specification: seven
  stages in a fixed order, each fallible on its own, the last one the write of the
  snapshot. By section 7 a transient error skips the stage and a fatal one aborts the
  tick, before the snapshot is written. The source calls the coroutine with the
  tournament alone (lines 296 and 325): the tick changes the tournament it is given and
  the saved data, and leaves the registry, which belongs to the cog, as it is. Stopping
  the schedule after a fatal error is the scheduler's part; the body does not touch the
  handle.\<close>

definition refresh_participants :: "member_id list \<times> member_id list \<Rightarrow> tournament \<Rightarrow> tournament" where
  \<comment> \<open>Modelled from the spec: stage 1. "Resync local participant set against remote state
      (additions/removals reported by the remote service since last tick)."\<close>
  "refresh_participants change t =
     (case change of
        (added, removed) \<Rightarrow>
          t\<lparr>participants :=
              [p \<leftarrow> participants t. p \<notin> set removed] @
              [p \<leftarrow> remdups added. p \<notin> set (participants t)]\<rparr>)"

definition new_match :: "nat \<Rightarrow> nat \<Rightarrow> match" where
  \<comment> \<open>Modelled from the spec: a new pairing is a pending match with no venue.\<close>
  "new_match now i =
     \<lparr>match_id = i, channel = None, status = Match_pending, last_activity = now,
      afk_disabled = False\<rparr>"

definition refresh_matches :: "nat \<Rightarrow> nat list \<times> nat list \<Rightarrow> tournament \<Rightarrow> tournament" where
  \<comment> \<open>Modelled from the spec: stage 2. "Resync local match list structure (new pairings,
      completed matches reported remotely)."\<close>
  "refresh_matches now change t =
     (case change of
        (pairings, completed) \<Rightarrow>
          t\<lparr>matches :=
              map (\<lambda>m. if match_id m \<in> set completed then m\<lparr>status := Match_finished\<rparr> else m)
                (matches t) @
              map (new_match now) pairings\<rparr>)"

definition launch_match :: "nat \<Rightarrow> (nat \<Rightarrow> channel_id option) \<Rightarrow> match \<Rightarrow> match" where
  \<comment> \<open>Modelled from the spec: stage 3 on one match.\<close>
  "launch_match now venues m =
     (if status m = Match_pending
      then (case venues (match_id m) of
              None \<Rightarrow> m
            | Some c \<Rightarrow> m\<lparr>channel := Some c, status := Match_ongoing, last_activity := now\<rparr>)
      else m)"

definition launch_matches :: "nat \<Rightarrow> (nat \<Rightarrow> channel_id option) \<Rightarrow> tournament \<Rightarrow> tournament" where
  \<comment> \<open>Modelled from the spec: stage 3. "For every match in pending state whose
      prerequisites are satisfied, request a communication venue, attach it to the match,
      transition it to ongoing."\<close>
  "launch_matches now venues t = t\<lparr>matches := map (launch_match now venues) (matches t)\<rparr>"

definition flag_afk :: "nat \<Rightarrow> nat \<Rightarrow> match \<Rightarrow> match" where
  \<comment> \<open>Modelled from the spec: stage 4 on one match.\<close>
  "flag_afk now threshold m =
     (if status m = Match_ongoing \<and> \<not> afk_disabled m \<and> threshold < now - last_activity m
      then m\<lparr>status := Match_flagged_afk\<rparr> else m)"

definition afk_detection :: "nat \<Rightarrow> nat \<Rightarrow> tournament \<Rightarrow> tournament" where
  \<comment> \<open>Modelled from the spec: stage 4. "For every ongoing match whose last-activity
      timestamp exceeds an inactivity threshold, flag it (flagged_afk); flagging is
      suppressed while flagging has been explicitly disabled for that match."\<close>
  "afk_detection now threshold t = t\<lparr>matches := map (flag_afk now threshold) (matches t)\<rparr>"

definition cleanup_match :: "nat \<Rightarrow> nat \<Rightarrow> (channel_id \<Rightarrow> bool) \<Rightarrow> match \<Rightarrow> match" where
  \<comment> \<open>Modelled from the spec: stage 5 on one match.\<close>
  "cleanup_match now grace gone m =
     (if status m = Match_finished \<and> grace < now - last_activity m
      then (case channel m of
              None \<Rightarrow> m
            | Some c \<Rightarrow> if gone c then m\<lparr>channel := None\<rparr> else m)
      else m)"

definition cleanup_channels :: "nat \<Rightarrow> nat \<Rightarrow> (channel_id \<Rightarrow> bool) \<Rightarrow> tournament \<Rightarrow> tournament" where
  \<comment> \<open>Modelled from the spec: stage 5. "Delete venues attached to matches that have
      reached finished and exceeded a grace period"; the reference is cleared by the
      deletion, and a venue already deleted is "treated as already absent".\<close>
  "cleanup_channels now grace gone t =
     t\<lparr>matches := map (cleanup_match now grace gone) (matches t)\<rparr>"

definition assign_streams :: "unit \<Rightarrow> tournament \<Rightarrow> tournament" where
  \<comment> \<open>Modelled from the spec: stage 6, "assign spectator-stream slots to eligible ongoing
      matches". The specification gives a match no field for a stream: the stage can
      fail, and changes nothing of the tournament as modelled.\<close>
  "assign_streams u t = t"

definition run_stage ::
  "'a answer \<Rightarrow> ('a \<Rightarrow> tournament \<Rightarrow> tournament) \<Rightarrow> tournament \<times> exn option \<Rightarrow>
   tournament \<times> exn option" where
  \<comment> \<open>Modelled from the spec: one stage, after the stages before it. A transient error
      skips the stage, a fatal error aborts the tick with what was done so far.\<close>
  "run_stage a f s =
     (case s of
        (t, Some e) \<Rightarrow> (t, Some e)
      | (t, None) \<Rightarrow>
          (case a of
             Answer x \<Rightarrow> (f x t, None)
           | Transient_error \<Rightarrow> (t, None)
           | Fatal_error e \<Rightarrow> (t, Some e)))"

definition run_stages :: "remote \<Rightarrow> tournament \<Rightarrow> tournament \<times> exn option" where
  \<comment> \<open>Modelled from the spec: stages 1 to 6, in order.\<close>
  "run_stages r t =
     run_stage (streams_answer r) assign_streams
       (run_stage (cleanup_answer r) (cleanup_channels (tick_time r) (grace_period r))
          (run_stage (afk_answer r)
             (\<lambda>u. afk_detection (tick_time r) (inactivity_threshold r))
             (run_stage (venues_answer r) (launch_matches (tick_time r))
                (run_stage (matches_answer r) (refresh_matches (tick_time r))
                   (run_stage (participants_answer r) refresh_participants (t, None))))))"

definition tick ::
  "remote \<Rightarrow> guild_id \<Rightarrow> tournament \<Rightarrow> (guild_id \<Rightarrow> stored) \<Rightarrow>
   tournament \<times> (guild_id \<Rightarrow> stored) \<times> exn option" where
  \<comment> \<open>Modelled from the spec: the body of the loop task, given the tournament and the
      saved data; it returns both as it leaves them, and the exception it raises, if
      any. Stage 7 writes the snapshot; "persistence is only skipped if the failure is
      classified fatal."\<close>
  "tick r g t d =
     (case run_stages r t of
        (t1, Some e) \<Rightarrow> (t1, d, Some e)
      | (t1, None) \<Rightarrow> (t1, d(g := Snapshot t1), None))"

subsection \<open>pausetask, resumetask, runtaskonce\<close>

definition pausetask_body :: "world \<Rightarrow> guild_id \<Rightarrow> result" where
  \<comment> \<open>lines 270 to 280\<close>
  "pausetask_body w g =
     (case tournaments w g of
        None \<Rightarrow> (Some (KeyError g), w, [])
      | Some t \<Rightarrow>
          if task t = None then (None, w, [Send Task_not_active])
          else (None, register_tournament g (stop_loop_task t) w,
                [Stop_loop_task g, Send Task_stopped]))"

definition tournamentfix_pausetask :: "world \<Rightarrow> guild_id \<Rightarrow> result" where
  \<comment> \<open>\<^verbatim>\<open>@only_phase("ongoing")\<close>\<close>
  "tournamentfix_pausetask = only_phase [Ongoing] pausetask_body"

definition resumetask_body :: "env \<Rightarrow> world \<Rightarrow> guild_id \<Rightarrow> result" where
  \<comment> \<open>lines 290 to 310\<close>
  "resumetask_body env w g =
     (case tournaments w g of
        None \<Rightarrow> (Some (KeyError g), w, [])
      | Some t \<Rightarrow>
          (case tick (answers env) g t (data w) of
             (t1, d1, Some e) \<Rightarrow>
               (None, register_tournament g t1 (w\<lparr>data := d1\<rparr>),
                [Typing, Run_loop_coro g, Log_error e, Send Resume_failed])
           | (t1, d1, None) \<Rightarrow>
               (None, register_tournament g (start_loop_task t1) (w\<lparr>data := d1\<rparr>),
                [Typing, Run_loop_coro g, Sleep 2, Start_loop_task g, Send Resumed])))"

definition tournamentfix_resumetask :: "env \<Rightarrow> world \<Rightarrow> guild_id \<Rightarrow> result" where
  \<comment> \<open>\<^verbatim>\<open>@only_phase("ongoing")\<close>\<close>
  "tournamentfix_resumetask env = only_phase [Ongoing] (resumetask_body env)"

definition runtaskonce_body :: "env \<Rightarrow> world \<Rightarrow> guild_id \<Rightarrow> result" where
  \<comment> \<open>lines 320 to 332\<close>
  "runtaskonce_body env w g =
     (case tournaments w g of
        None \<Rightarrow> (Some (KeyError g), w, [])
      | Some t \<Rightarrow>
          (case tick (answers env) g t (data w) of
             (t1, d1, Some e) \<Rightarrow>
               (None, register_tournament g t1 (w\<lparr>data := d1\<rparr>),
                [Run_loop_coro g, Log_error e, Send Runonce_failed])
           | (t1, d1, None) \<Rightarrow>
               (None, register_tournament g t1 (w\<lparr>data := d1\<rparr>),
                [Run_loop_coro g, Tick_reaction])))"

definition tournamentfix_runtaskonce :: "env \<Rightarrow> world \<Rightarrow> guild_id \<Rightarrow> result" where
  \<comment> \<open>\<^verbatim>\<open>@only_phase("ongoing")\<close>\<close>
  "tournamentfix_runtaskonce env = only_phase [Ongoing] (runtaskonce_body env)"





subsection \<open>Example states\<close>

definition match_a :: match where
  "match_a = \<lparr>match_id = 1, channel = Some 10, status = Match_ongoing,
              last_activity = 0, afk_disabled = False\<rparr>"

definition match_b :: match where
  "match_b = \<lparr>match_id = 2, channel = None, status = Match_pending,
              last_activity = 0, afk_disabled = False\<rparr>"

definition match_c :: match where
  "match_c = \<lparr>match_id = 3, channel = Some 30, status = Match_ongoing,
              last_activity = 5, afk_disabled = False\<rparr>"

definition match_d :: match where
  "match_d = \<lparr>match_id = 4, channel = Some 40, status = Match_finished,
              last_activity = 2, afk_disabled = False\<rparr>"

definition match_e :: match where
  "match_e = \<lparr>match_id = 5, channel = None, status = Match_pending,
              last_activity = 0, afk_disabled = False\<rparr>"

definition cup :: tournament where
  \<comment> \<open>five matches, three of them with a channel, two of them ongoing; the loop runs\<close>
  "cup = \<lparr>t_id = 7, name = ''cup'', limit = Some 8, phase = Ongoing,
          participants = [100, 101, 102],
          matches = [match_a, match_b, match_c, match_d, match_e],
          participant_role = Some 50, task = Some Loop_handle,
          register_start = Some 1, register_stop = Some 2,
          checkin_start = Some 3, checkin_stop = Some 4\<rparr>"

definition signup :: tournament where
  \<comment> \<open>registration is open and no participant role is set\<close>
  "signup = cup\<lparr>phase := Register, participant_role := None, task := None\<rparr>"

definition no_tournament :: world where
  \<comment> \<open>nothing registered, nothing saved\<close>
  "no_tournament = \<lparr>tournaments = Map.empty, data = (\<lambda>g. Empty_marker)\<rparr>"

definition live :: "tournament \<Rightarrow> world" where
  \<comment> \<open>guild 1 has the tournament registered and saved\<close>
  "live t = \<lparr>tournaments = [1 \<mapsto> t], data = (\<lambda>g. if g = 1 then Snapshot t else Empty_marker)\<rparr>"

definition quiet :: remote where
  \<comment> \<open>a tick long after the last activity of every match, in which the collaborators
      report no change\<close>
  "quiet = \<lparr>tick_time = 1000, inactivity_threshold = 10, grace_period = 10,
            participants_answer = Answer ([], []), matches_answer = Answer ([], []),
            venues_answer = Answer (\<lambda>i. None), afk_answer = Answer (),
            cleanup_answer = Answer (\<lambda>c. False), streams_answer = Answer ()\<rparr>"

definition failing :: env where
  \<comment> \<open>every fallible collaborator fails; the deletion of channel 30 fails; the tick
      meets a fatal error when it launches the matches\<close>
  "failing = \<lparr>restore_tournament = (\<lambda>g s. Inl (Exception ''restore'')),
              challonge_show = (\<lambda>i. Inl (Exception ''show'')),
              channel_delete = (\<lambda>c. if c = 30 then HTTPException else Done),
              remove_roles = (\<lambda>p r. HTTPException),
              answers = quiet\<lparr>venues_answer := Fatal_error (Exception ''tick'')\<rparr>\<rparr>"

definition interrupted :: env where
  \<comment> \<open>as \<open>failing\<close>, but the deletion of channel 30 raises an exception that is not a
      \<^verbatim>\<open>discord.HTTPException\<close>\<close>
  "interrupted =
     failing\<lparr>channel_delete :=
       (\<lambda>c. if c = 30 then Other_exception (Exception ''OSError'') else Done)\<rparr>"

definition working :: env where
  \<comment> \<open>every collaborator succeeds; restoring reads the snapshot back, and gives the
      tournament \<open>cup\<close> when there is none\<close>
  "working = \<lparr>restore_tournament =
                 (\<lambda>g s. case s of Empty_marker \<Rightarrow> Inr cup | Snapshot t \<Rightarrow> Inr t),
              challonge_show = (\<lambda>i. Inr \<lparr>data_name = ''final'', data_limit = Some 16\<rparr>),
              channel_delete = (\<lambda>c. Done),
              remove_roles = (\<lambda>p r. Done),
              answers = quiet\<rparr>"

section \<open>Properties\<close>

subsection \<open>The gate, the loops and the tick\<close>

lemma only_phase_pass:
  "tournaments w g = Some t \<Longrightarrow> phase t \<in> set allowed \<or> allowed = [] \<Longrightarrow>
   only_phase allowed body w g = body w g"
  by (auto simp: only_phase_def check_phase_def)

lemma only_phase_absent:
  "tournaments w g = None \<Longrightarrow> only_phase allowed body w g = (Some NoActiveTournament, w, [])"
  by (simp add: only_phase_def check_phase_def)

lemma only_phase_mismatch:
  "tournaments w g = Some t \<Longrightarrow> allowed \<noteq> [] \<Longrightarrow> phase t \<notin> set allowed \<Longrightarrow>
   only_phase allowed body w g = (Some (PhaseMismatch (phase t) allowed), w, [])"
  by (simp add: only_phase_def check_phase_def)

lemma captured_channels:
  "map Some [the (channel x). x \<leftarrow> ms, channel x \<noteq> None] =
   filter (\<lambda>c. c \<noteq> None) (map channel ms)"
  by (induction ms) auto

lemma delete_channels_caught:
  "\<forall>c \<in> set cs. \<forall>x. channel_delete env c \<noteq> Other_exception x \<Longrightarrow>
   delete_channels env (cs @ rest) failed tr =
     delete_channels env rest
       (failed + length (filter (\<lambda>c. channel_delete env c = HTTPException) cs))
       (tr @ map Channel_delete cs)"
proof (induction cs arbitrary: failed tr)
  case Nil
  show ?case by simp
next
  case (Cons c cs)
  have rest: "\<forall>c \<in> set cs. \<forall>x. channel_delete env c \<noteq> Other_exception x"
    using Cons.prems by simp
  show ?case
  proof (cases "channel_delete env c")
    case Done
    then show ?thesis by (simp add: Cons.IH [OF rest])
  next
    case HTTPException
    then show ?thesis by (simp add: Cons.IH [OF rest])
  next
    case (Other_exception x)
    then show ?thesis using Cons.prems by simp
  qed
qed

lemma resetmatches_registered:
  assumes reg: "tournaments w g = Some t" and ph: "phase t = Ongoing"
  shows "tournamentfix_resetmatches env True w g =
     (case delete_channels env [the (channel x). x \<leftarrow> matches t, channel x \<noteq> None] 0
             [Save g, Send Matches_reset_deleting, Typing] of
        (Some e, failed, tr) \<Rightarrow>
          (Some (Raised e),
           save g (t\<lparr>matches := [], participants := []\<rparr>)
             (register_tournament g (t\<lparr>matches := [], participants := []\<rparr>) w), tr)
      | (None, failed, tr) \<Rightarrow>
          (None,
           save g (t\<lparr>matches := [], participants := []\<rparr>)
             (register_tournament g (t\<lparr>matches := [], participants := []\<rparr>) w),
           tr @ [Send (channels_deleted_message failed)]))"
  using reg ph
  by (simp add: tournamentfix_resetmatches_def only_phase_pass resetmatches_body_def Let_def)

lemma run_stage_keeps:
  assumes "\<And>x t. Q t \<Longrightarrow> Q (f x t)" and "Q (fst s)"
  shows "Q (fst (run_stage a f s))"
proof -
  obtain t r where s: "s = (t, r)" by (cases s)
  have q: "Q t" using assms(2) s by simp
  show ?thesis
  proof (cases r)
    case (Some e)
    then show ?thesis using q by (simp add: run_stage_def s)
  next
    case None
    show ?thesis
    proof (cases a)
      case (Answer x)
      have "Q (f x t)" using q by (rule assms(1))
      then show ?thesis by (simp add: run_stage_def s None Answer)
    next
      case Transient_error
      then show ?thesis using q by (simp add: run_stage_def s None)
    next
      case (Fatal_error e)
      then show ?thesis using q by (simp add: run_stage_def s None)
    qed
  qed
qed

lemma tick_keeps:
  assumes "\<And>c t. Q t \<Longrightarrow> Q (refresh_participants c t)"
    and "\<And>now c t. Q t \<Longrightarrow> Q (refresh_matches now c t)"
    and "\<And>now v t. Q t \<Longrightarrow> Q (launch_matches now v t)"
    and "\<And>now th t. Q t \<Longrightarrow> Q (afk_detection now th t)"
    and "\<And>now gr gone t. Q t \<Longrightarrow> Q (cleanup_channels now gr gone t)"
    and "Q t"
  shows "Q (fst (tick r g t d))"
proof -
  let ?s1 = "run_stage (participants_answer r) refresh_participants (t, None)"
  let ?s2 = "run_stage (matches_answer r) (refresh_matches (tick_time r)) ?s1"
  let ?s3 = "run_stage (venues_answer r) (launch_matches (tick_time r)) ?s2"
  let ?s4 = "run_stage (afk_answer r)
                 (\<lambda>u. afk_detection (tick_time r) (inactivity_threshold r)) ?s3"
  let ?s5 = "run_stage (cleanup_answer r)
                 (cleanup_channels (tick_time r) (grace_period r)) ?s4"
  have "Q (fst ?s1)"
    by (rule run_stage_keeps [of Q]) (simp_all add: assms(1,6))
  then have "Q (fst ?s2)"
    by (rule run_stage_keeps [of Q, rotated]) (simp add: assms(2))
  then have "Q (fst ?s3)"
    by (rule run_stage_keeps [of Q, rotated]) (simp add: assms(3))
  then have "Q (fst ?s4)"
    by (rule run_stage_keeps [of Q, rotated]) (simp add: assms(4))
  then have "Q (fst ?s5)"
    by (rule run_stage_keeps [of Q, rotated]) (simp add: assms(5))
  then have "Q (fst (run_stage (streams_answer r) assign_streams ?s5))"
    by (rule run_stage_keeps [of Q, rotated]) (simp add: assign_streams_def)
  then have q: "Q (fst (run_stages r t))" by (simp only: run_stages_def)
  obtain t1 x where s: "run_stages r t = (t1, x)" by (cases "run_stages r t")
  have "fst (tick r g t d) = t1" by (cases x) (simp_all add: tick_def s)
  then show ?thesis using q s by simp
qed

lemma tick_phase_task:
  "phase (fst (tick r g t d)) = phase t \<and> task (fst (tick r g t d)) = task t"
  by (rule tick_keeps [where Q = "\<lambda>u. phase u = phase t \<and> task u = task t"])
     (simp_all add: refresh_participants_def refresh_matches_def launch_matches_def
        afk_detection_def cleanup_channels_def split: prod.splits)

lemma tick_written:
  assumes "tick r g t d = (t1, d1, x)"
  shows "d1 = (case x of None \<Rightarrow> d(g := Snapshot t1) | Some e \<Rightarrow> d)"
proof -
  obtain u y where s: "run_stages r t = (u, y)" by (cases "run_stages r t")
  show ?thesis using assms by (cases y) (auto simp: tick_def s)
qed








lemma resumetask_registered:
  assumes reg: "tournaments w g = Some t" and ph: "phase t = Ongoing"
  shows "tournamentfix_resumetask env w g =
     (case tick (answers env) g t (data w) of
        (t1, d1, Some e) \<Rightarrow>
          (None, w\<lparr>tournaments := (tournaments w)(g \<mapsto> t1), data := d1\<rparr>,
           [Typing, Run_loop_coro g, Log_error e, Send Resume_failed])
      | (t1, d1, None) \<Rightarrow>
          (None, w\<lparr>tournaments := (tournaments w)(g \<mapsto> t1\<lparr>task := Some Loop_handle\<rparr>), data := d1\<rparr>,
           [Typing, Run_loop_coro g, Sleep 2, Start_loop_task g, Send Resumed]))"
proof -
  obtain t1 d1 x where tk: "tick (answers env) g t (data w) = (t1, d1, x)"
    by (cases "tick (answers env) g t (data w)")
  have gate: "tournamentfix_resumetask env w g = resumetask_body env w g"
    using reg ph by (simp add: tournamentfix_resumetask_def only_phase_pass)
  show ?thesis
    using reg
    by (cases x)
       (simp_all add: gate resumetask_body_def register_tournament_def start_loop_task_def tk)
qed

lemma tick_failing_idle:
  "tick (answers failing) g (cup\<lparr>task := None\<rparr>) d =
     (cup\<lparr>task := None\<rparr>, d, Some (Exception ''tick''))"
  by (simp add: tick_def run_stages_def run_stage_def failing_def quiet_def
      refresh_participants_def refresh_matches_def cup_def)




subsection \<open>restore\<close>

text \<open>
  C1. The claim: with no tournament registered and the empty marker saved, restore reports
  that nothing is saved and does not attempt to rebuild or register a tournament.
  The code sends the message of line 88 and, having no \<^verbatim>\<open>return\<close> there, goes on to call
  \<^verbatim>\<open>_restore_tournament\<close>: for guild 1 of the state \<open>no_tournament\<close>, when that call raises the
  operator is also told that the tournament "was found on disk" but cannot be reloaded,
  and when it returns a tournament, that tournament is registered and reported as loaded.
\<close>

theorem restore_on_empty_marker_calls_restore:
  "tournamentfix_restore failing no_tournament 1 =
     (None, no_tournament,
      [Send Nothing_on_disk, Restore_tournament 1, Log_error (Exception ''restore''),
       Send Restore_failed]) \<and>
   tournamentfix_restore working no_tournament 1 =
     (None, no_tournament\<lparr>tournaments := [1 \<mapsto> cup]\<rparr>,
      [Send Nothing_on_disk, Restore_tournament 1, Send Restored])"
  by (simp add: tournamentfix_restore_def no_tournament_def failing_def working_def
      register_tournament_def)

text \<open>
  C8. When the guild already has a tournament registered, restore is rejected: it sends
  the message of line 80 and nothing else happens. No call to \<^verbatim>\<open>_restore_tournament\<close> is
  made, and the registry (with the registered tournament) and the saved data are the
  ones it started from, so the guild still has exactly the one tournament it had.
\<close>

theorem restore_rejected_when_registered:
  assumes "tournaments w g = Some t"
  shows "tournamentfix_restore env w g = (None, w, [Send Already_setup])"
  using assms by (simp add: tournamentfix_restore_def)

theorem restore_rejected_when_registered_witness:
  "tournaments (live cup) 1 = Some cup \<and>
   tournamentfix_restore working (live cup) 1 = (None, live cup, [Send Already_setup])"
proof -
  have reg: "tournaments (live cup) 1 = Some cup" by (simp add: live_def)
  from restore_rejected_when_registered [OF reg, of working] reg show ?thesis by simp
qed

subsection \<open>reload\<close>

text \<open>
  C2. The claim: reload saves the tournament, stops its loop, removes it from the
  registry and then restores it. The code makes no call to \<^verbatim>\<open>stop_loop_task\<close>
  (\<^verbatim>\<open>tournamentfix_hardreset\<close> makes one before its \<^verbatim>\<open>del\<close>): for guild 1 of \<open>live cup\<close>,
  whose loop runs, the calls are \<^verbatim>\<open>save\<close> and \<^verbatim>\<open>_restore_tournament\<close> only. The rest of
  the claim holds there: when the restore raises, the guild is left unregistered, the
  snapshot saved at the start is still in the saved data, and the operator is told.
\<close>

theorem reload_does_not_stop_loop:
  "tournamentfix_reload failing (live cup) 1 =
     (None, (live cup)\<lparr>tournaments := Map.empty\<rparr>,
      [Save 1, Restore_tournament 1, Log_error (Exception ''restore''), Send Reload_failed]) \<and>
   tournamentfix_reload working (live cup) 1 =
     (None, live cup, [Save 1, Restore_tournament 1, Send Reloaded]) \<and>
   Stop_loop_task 1 \<notin> set (snd (snd (tournamentfix_reload failing (live cup) 1))) \<and>
   Stop_loop_task 1 \<notin> set (snd (snd (tournamentfix_reload working (live cup) 1)))"
  by (simp add: tournamentfix_reload_def only_phase_def check_phase_def reload_body_def
      live_def failing_def working_def register_tournament_def unregister_def save_def
      fun_eq_iff)

subsection \<open>hardreset\<close>

text \<open>
  C3. The claim: hardreset stops the loop, unregisters the guild and writes the empty
  marker, with no call to the bracket service and no deletion, so that a restore right
  after it fails with nothing to restore. The first half holds for guild 1 of \<open>live cup\<close>
  once the operator has confirmed. The restore that follows sends the message of line 88
  and then calls \<^verbatim>\<open>_restore_tournament\<close> all the same (the missing \<^verbatim>\<open>return\<close> of C1): when
  that call raises, a second, contradicting failure is reported, and when it returns a
  tournament the guild has a tournament again.
\<close>

theorem hardreset_then_restore_calls_restore:
  "tournamentfix_hardreset (Answered True) (live cup) 1 =
     (None, no_tournament,
      [Send Hardreset_confirm, Add_reactions, Wait_for_reaction, Stop_loop_task 1,
       Set_empty 1, Log_info, Send Hardreset_done]) \<and>
   (case tournamentfix_hardreset (Answered True) (live cup) 1 of
      (e, w, tr) \<Rightarrow> tournamentfix_restore failing w 1) =
     (None, no_tournament,
      [Send Nothing_on_disk, Restore_tournament 1, Log_error (Exception ''restore''),
       Send Restore_failed]) \<and>
   (case tournamentfix_hardreset (Answered True) (live cup) 1 of
      (e, w, tr) \<Rightarrow> tournamentfix_restore working w 1) =
     (None, no_tournament\<lparr>tournaments := [1 \<mapsto> cup]\<rparr>,
      [Send Nothing_on_disk, Restore_tournament 1, Send Restored])"
proof -
  have h: "tournamentfix_hardreset (Answered True) (live cup) 1 =
     (None, no_tournament,
      [Send Hardreset_confirm, Add_reactions, Wait_for_reaction, Stop_loop_task 1,
       Set_empty 1, Log_info, Send Hardreset_done])"
    by (simp add: tournamentfix_hardreset_def only_phase_def check_phase_def
        hardreset_body_def live_def no_tournament_def register_tournament_def unregister_def
        fun_eq_iff)
  have f: "tournamentfix_restore failing no_tournament 1 =
     (None, no_tournament,
      [Send Nothing_on_disk, Restore_tournament 1, Log_error (Exception ''restore''),
       Send Restore_failed])"
    by (simp add: tournamentfix_restore_def no_tournament_def failing_def)
  have s: "tournamentfix_restore working no_tournament 1 =
     (None, no_tournament\<lparr>tournaments := [1 \<mapsto> cup]\<rparr>,
      [Send Nothing_on_disk, Restore_tournament 1, Send Restored])"
    by (simp add: tournamentfix_restore_def no_tournament_def working_def
        register_tournament_def)
  show ?thesis by (simp only: h f s prod.case simp_thms)
qed

subsection \<open>resetmatches\<close>

text \<open>
  C6, as the code has it. For a tournament in phase ongoing, resetmatches asked to delete
  the channels takes the channels of the matches that have one, in the order of the
  matches, empties the matches and the participants and saves; only then does it ask
  for the deletion of the captured channels, one after the other. A deletion that raises
  \<^verbatim>\<open>discord.HTTPException\<close> is counted and the next channel is tried; when every deletion
  returned or raised that exception, the closing message carries the count of those
  that raised (and no count when none did). A deletion that raises any other exception
  ends the command there, with that exception: the channels after it are not tried and
  no closing message is sent. In every case the registered and the saved tournament
  have no match and no participant, and differ from the old one in nothing else.
\<close>

theorem resetmatches_deletes_until_uncaught:
  assumes reg: "tournaments w g = Some t" and ph: "phase t = Ongoing"
  shows "\<exists>venues t' w'.
     map Some venues = filter (\<lambda>c. c \<noteq> None) (map channel (matches t)) \<and>
     tournaments w' = (tournaments w)(g \<mapsto> t') \<and>
     data w' = (data w)(g := Snapshot t') \<and>
     matches t' = [] \<and> participants t' = [] \<and>
     t'\<lparr>matches := matches t, participants := participants t\<rparr> = t \<and>
     fst (snd (tournamentfix_resetmatches env True w g)) = w' \<and>
     ((\<forall>c \<in> set venues. \<forall>x. channel_delete env c \<noteq> Other_exception x) \<longrightarrow>
        tournamentfix_resetmatches env True w g =
          (None, w',
           [Save g, Send Matches_reset_deleting, Typing] @ map Channel_delete venues @
           [Send (if filter (\<lambda>c. channel_delete env c = HTTPException) venues = []
                  then Channels_deleted
                  else Channels_deleted_failed
                         (length (filter (\<lambda>c. channel_delete env c = HTTPException) venues)))])) \<and>
     (\<forall>before c after x.
        venues = before @ c # after \<and>
        (\<forall>c' \<in> set before. \<forall>y. channel_delete env c' \<noteq> Other_exception y) \<and>
        channel_delete env c = Other_exception x \<longrightarrow>
        tournamentfix_resetmatches env True w g =
          (Some (Raised x), w',
           [Save g, Send Matches_reset_deleting, Typing] @ map Channel_delete before @
           [Channel_delete c]))"
proof -
  let ?venues = "[the (channel x). x \<leftarrow> matches t, channel x \<noteq> None]"
  let ?t' = "t\<lparr>matches := [], participants := []\<rparr>"
  let ?w' = "save g ?t' (register_tournament g ?t' w)"
  let ?start = "[Save g, Send Matches_reset_deleting, Typing]"
  note r = resetmatches_registered [OF reg ph, of env]
  have v: "map Some ?venues = filter (\<lambda>c. c \<noteq> None) (map channel (matches t))"
    by (rule captured_channels)
  have w: "tournaments ?w' = (tournaments w)(g \<mapsto> ?t')"
    "data ?w' = (data w)(g := Snapshot ?t')"
    by (simp_all add: save_def register_tournament_def)
  have state: "fst (snd (tournamentfix_resetmatches env True w g)) = ?w'"
    by (simp add: r split: prod.splits option.splits)
  have caught: "tournamentfix_resetmatches env True w g =
          (None, ?w',
           ?start @ map Channel_delete ?venues @
           [Send (if filter (\<lambda>c. channel_delete env c = HTTPException) ?venues = []
                  then Channels_deleted
                  else Channels_deleted_failed
                         (length (filter (\<lambda>c. channel_delete env c = HTTPException) ?venues)))])"
    if all: "\<forall>c \<in> set ?venues. \<forall>x. channel_delete env c \<noteq> Other_exception x"
  proof -
    have "delete_channels env (?venues @ []) 0 ?start =
        (None, length (filter (\<lambda>c. channel_delete env c = HTTPException) ?venues),
         ?start @ map Channel_delete ?venues)"
      by (simp only: delete_channels_caught [OF all] delete_channels.simps add_0)
    then have "delete_channels env ?venues 0 ?start =
        (None, length (filter (\<lambda>c. channel_delete env c = HTTPException) ?venues),
         ?start @ map Channel_delete ?venues)"
      by simp
    then show ?thesis by (simp add: r channels_deleted_message_def)
  qed
  have cut: "tournamentfix_resetmatches env True w g =
          (Some (Raised x), ?w', ?start @ map Channel_delete before @ [Channel_delete c])"
    if split: "?venues = before @ c # after"
      and all: "\<forall>c' \<in> set before. \<forall>y. channel_delete env c' \<noteq> Other_exception y"
      and other: "channel_delete env c = Other_exception x"
    for before c after x
  proof -
    have "delete_channels env (before @ c # after) 0 ?start =
        (Some x, length (filter (\<lambda>c. channel_delete env c = HTTPException) before),
         ?start @ map Channel_delete before @ [Channel_delete c])"
      by (simp add: delete_channels_caught [OF all] other)
    then show ?thesis unfolding r split by simp
  qed
  show ?thesis
    apply (rule exI [of _ ?venues], rule exI [of _ ?t'], rule exI [of _ ?w'])
    using v w state caught cut by simp
qed

text \<open>The example of the specification (five matches, three of them with a channel, the
  deletion of one channel fails with \<^verbatim>\<open>discord.HTTPException\<close>), and the same tournament
  when no deletion fails.\<close>

theorem resetmatches_deletes_until_uncaught_witness:
  "tournaments (live cup) 1 = Some cup \<and> phase cup = Ongoing \<and>
   tournamentfix_resetmatches failing True (live cup) 1 =
     (None, live (cup\<lparr>matches := [], participants := []\<rparr>),
      [Save 1, Send Matches_reset_deleting, Typing, Channel_delete 10, Channel_delete 30,
       Channel_delete 40, Send (Channels_deleted_failed 1)]) \<and>
   tournamentfix_resetmatches working True (live cup) 1 =
     (None, live (cup\<lparr>matches := [], participants := []\<rparr>),
      [Save 1, Send Matches_reset_deleting, Typing, Channel_delete 10, Channel_delete 30,
       Channel_delete 40, Send Channels_deleted])"
proof -
  have reg: "tournaments (live cup) 1 = Some cup" by (simp add: live_def)
  have ph: "phase cup = Ongoing" by (simp add: cup_def)
  have result: "tournamentfix_resetmatches env True (live cup) 1 =
     (None, live (cup\<lparr>matches := [], participants := []\<rparr>),
      [Save 1, Send Matches_reset_deleting, Typing, Channel_delete 10, Channel_delete 30,
       Channel_delete 40,
       Send (if filter (\<lambda>c. channel_delete env c = HTTPException) [10, 30, 40] = []
             then Channels_deleted
             else Channels_deleted_failed
                    (length (filter (\<lambda>c. channel_delete env c = HTTPException) [10, 30, 40])))])"
    if caught: "\<forall>c \<in> set [10, 30, 40]. \<forall>x. channel_delete env c \<noteq> Other_exception x" for env
  proof -
    from resetmatches_deletes_until_uncaught [OF reg ph, of env]
    obtain venues t' w' where
      v: "map Some venues = filter (\<lambda>c. c \<noteq> None) (map channel (matches cup))" and
      w: "tournaments w' = (tournaments (live cup))(1 \<mapsto> t')"
         "data w' = (data (live cup))(1 := Snapshot t')" and
      t: "matches t' = []" "participants t' = []"
         "t'\<lparr>matches := matches cup, participants := participants cup\<rparr> = cup" and
      r: "(\<forall>c \<in> set venues. \<forall>x. channel_delete env c \<noteq> Other_exception x) \<longrightarrow>
        tournamentfix_resetmatches env True (live cup) 1 =
          (None, w',
           [Save 1, Send Matches_reset_deleting, Typing] @ map Channel_delete venues @
           [Send (if filter (\<lambda>c. channel_delete env c = HTTPException) venues = []
                  then Channels_deleted
                  else Channels_deleted_failed
                         (length (filter (\<lambda>c. channel_delete env c = HTTPException) venues)))])"
      by blast
    have "map Some venues = [Some 10, Some 30, Some 40]"
      using v by (simp add: cup_def match_a_def match_b_def match_c_def match_d_def match_e_def)
    then have venues: "venues = [10, 30, 40]" by (auto simp: map_eq_Cons_conv)
    have "t' = (t'\<lparr>matches := matches cup, participants := participants cup\<rparr>)
               \<lparr>matches := [], participants := []\<rparr>"
      using t(1,2) by simp
    then have t': "t' = cup\<lparr>matches := [], participants := []\<rparr>" using t(3) by simp
    have w': "w' = live (cup\<lparr>matches := [], participants := []\<rparr>)"
      using w t' by (cases w') (auto simp: live_def fun_eq_iff)
    from r caught show ?thesis unfolding venues w' by simp
  qed
  have f: "\<forall>c \<in> set [10, 30, 40]. \<forall>x. channel_delete failing c \<noteq> Other_exception x"
    by (simp add: failing_def)
  have s: "\<forall>c \<in> set [10, 30, 40]. \<forall>x. channel_delete working c \<noteq> Other_exception x"
    by (simp add: working_def)
  show ?thesis
    using reg ph result [OF f] result [OF s] by (simp add: failing_def working_def)
qed

text \<open>
  C6, as the claim has it: every deletion failure is counted and none aborts the
  remaining deletions. When the deletion of channel 30 raises an exception that is not a
  \<^verbatim>\<open>discord.HTTPException\<close>, the command ends with it: channel 40 is never tried and the
  operator gets no count.
\<close>

theorem resetmatches_aborts_on_uncaught:
  "tournamentfix_resetmatches interrupted True (live cup) 1 =
     (Some (Raised (Exception ''OSError'')),
      live (cup\<lparr>matches := [], participants := []\<rparr>),
      [Save 1, Send Matches_reset_deleting, Typing, Channel_delete 10, Channel_delete 30])"
  by (simp add: tournamentfix_resetmatches_def only_phase_def check_phase_def
      resetmatches_body_def live_def cup_def match_a_def match_b_def match_c_def match_d_def
      match_e_def interrupted_def failing_def save_def register_tournament_def Let_def
      fun_eq_iff)

subsection \<open>The phase gate\<close>

text \<open>
  C4. Each of the eight gated commands (reload, hardreset, resetmatches,
  resetparticipants, refresh, pausetask, resumetask, runtaskonce), invoked for a guild
  with no tournament registered, ends with \<open>NoActiveTournament\<close>; invoked while the phase
  of the tournament is not one of those the command declares, it ends with
  \<open>PhaseMismatch\<close>, carrying the phase and the declared phases. In both cases the state
  returned is the state given, registry and saved data alike, and the trace is empty:
  no message, no call, not even the confirmation of hardreset. The commands reload,
  hardreset and refresh declare no phase, which admits every phase.
\<close>

theorem phase_gate_rejects_without_effect:
  "(tournaments w g = None \<longrightarrow>
      tournamentfix_reload env w g = (Some NoActiveTournament, w, []) \<and>
      tournamentfix_hardreset r w g = (Some NoActiveTournament, w, []) \<and>
      tournamentfix_resetmatches env b w g = (Some NoActiveTournament, w, []) \<and>
      tournamentfix_resetparticipants env b w g = (Some NoActiveTournament, w, []) \<and>
      tournamentfix_refresh env w g = (Some NoActiveTournament, w, []) \<and>
      tournamentfix_pausetask w g = (Some NoActiveTournament, w, []) \<and>
      tournamentfix_resumetask env w g = (Some NoActiveTournament, w, []) \<and>
      tournamentfix_runtaskonce env w g = (Some NoActiveTournament, w, [])) \<and>
   (tournaments w g = Some t \<and> phase t \<noteq> Ongoing \<longrightarrow>
      tournamentfix_resetmatches env b w g = (Some (PhaseMismatch (phase t) [Ongoing]), w, []) \<and>
      tournamentfix_pausetask w g = (Some (PhaseMismatch (phase t) [Ongoing]), w, []) \<and>
      tournamentfix_resumetask env w g = (Some (PhaseMismatch (phase t) [Ongoing]), w, []) \<and>
      tournamentfix_runtaskonce env w g = (Some (PhaseMismatch (phase t) [Ongoing]), w, [])) \<and>
   (tournaments w g = Some t \<and> phase t \<noteq> Register \<and> phase t \<noteq> Checkin \<longrightarrow>
      tournamentfix_resetparticipants env b w g =
        (Some (PhaseMismatch (phase t) [Register, Checkin]), w, []))"
  by (simp add: tournamentfix_reload_def tournamentfix_hardreset_def
      tournamentfix_resetmatches_def tournamentfix_resetparticipants_def
      tournamentfix_refresh_def tournamentfix_pausetask_def tournamentfix_resumetask_def
      tournamentfix_runtaskonce_def only_phase_absent only_phase_mismatch)

theorem phase_gate_rejects_without_effect_witness:
  "tournaments no_tournament 1 = None \<and>
   tournamentfix_reload failing no_tournament 1 = (Some NoActiveTournament, no_tournament, []) \<and>
   tournamentfix_hardreset (Answered True) no_tournament 1 =
     (Some NoActiveTournament, no_tournament, []) \<and>
   tournamentfix_refresh failing no_tournament 1 = (Some NoActiveTournament, no_tournament, []) \<and>
   tournaments (live (cup\<lparr>phase := Pending\<rparr>)) 1 = Some (cup\<lparr>phase := Pending\<rparr>) \<and>
   phase (cup\<lparr>phase := Pending\<rparr>) = Pending \<and>
   tournamentfix_resetmatches failing True (live (cup\<lparr>phase := Pending\<rparr>)) 1 =
     (Some (PhaseMismatch Pending [Ongoing]), live (cup\<lparr>phase := Pending\<rparr>), []) \<and>
   tournamentfix_pausetask (live (cup\<lparr>phase := Pending\<rparr>)) 1 =
     (Some (PhaseMismatch Pending [Ongoing]), live (cup\<lparr>phase := Pending\<rparr>), []) \<and>
   tournamentfix_resumetask failing (live (cup\<lparr>phase := Pending\<rparr>)) 1 =
     (Some (PhaseMismatch Pending [Ongoing]), live (cup\<lparr>phase := Pending\<rparr>), []) \<and>
   tournamentfix_runtaskonce failing (live (cup\<lparr>phase := Pending\<rparr>)) 1 =
     (Some (PhaseMismatch Pending [Ongoing]), live (cup\<lparr>phase := Pending\<rparr>), []) \<and>
   tournamentfix_resetparticipants failing True (live (cup\<lparr>phase := Pending\<rparr>)) 1 =
     (Some (PhaseMismatch Pending [Register, Checkin]), live (cup\<lparr>phase := Pending\<rparr>), [])"
proof -
  have none: "tournaments no_tournament 1 = None" by (simp add: no_tournament_def)
  have reg: "tournaments (live (cup\<lparr>phase := Pending\<rparr>)) 1 = Some (cup\<lparr>phase := Pending\<rparr>)"
    by (simp add: live_def)
  have ph: "phase (cup\<lparr>phase := Pending\<rparr>) = Pending" by simp
  from phase_gate_rejects_without_effect
         [of no_tournament 1 failing "Answered True" True "cup\<lparr>phase := Pending\<rparr>"]
       phase_gate_rejects_without_effect
         [of "live (cup\<lparr>phase := Pending\<rparr>)" 1 failing "Answered True" True
             "cup\<lparr>phase := Pending\<rparr>"]
       none reg ph
  show ?thesis by simp
qed

subsection \<open>resetparticipants\<close>

text \<open>
  C10. In phase register or checkin, when the tournament has no participant role,
  resetparticipants asked to remove the roles still empties the participants and saves,
  and then makes no call to \<^verbatim>\<open>remove_roles\<close> at all: the list it iterates is empty
  whatever the participants were, and the closing message reports no failure.
\<close>

theorem resetparticipants_without_role:
  assumes reg: "tournaments w g = Some t"
    and ph: "phase t = Register \<or> phase t = Checkin"
    and norole: "participant_role t = None"
  shows "\<exists>t' w'.
     tournamentfix_resetparticipants env True w g =
       (None, w', [Save g, Send Participants_reset_removing, Typing, Send Roles_removed]) \<and>
     tournaments w' = (tournaments w)(g \<mapsto> t') \<and>
     data w' = (data w)(g := Snapshot t') \<and>
     participants t' = [] \<and> t'\<lparr>participants := participants t\<rparr> = t"
proof -
  let ?t' = "t\<lparr>participants := []\<rparr>"
  let ?w' = "save g ?t' (register_tournament g ?t' w)"
  have gate: "only_phase [Register, Checkin] (resetparticipants_body env True) w g =
      resetparticipants_body env True w g"
    using reg ph by (auto intro: only_phase_pass)
  have r: "tournamentfix_resetparticipants env True w g =
       (None, ?w', [Save g, Send Participants_reset_removing, Typing, Send Roles_removed])"
    using reg norole
    by (simp add: tournamentfix_resetparticipants_def gate resetparticipants_body_def
        roles_removed_message_def Let_def)
  have w: "tournaments ?w' = (tournaments w)(g \<mapsto> ?t')"
    "data ?w' = (data w)(g := Snapshot ?t')"
    by (simp_all add: save_def register_tournament_def)
  show ?thesis
    apply (rule exI [of _ ?t'], rule exI [of _ ?w'])
    using r w by simp
qed

theorem resetparticipants_without_role_witness:
  "tournaments (live signup) 1 = Some signup \<and>
   (phase signup = Register \<or> phase signup = Checkin) \<and>
   participant_role signup = None \<and> participants signup = [100, 101, 102] \<and>
   tournamentfix_resetparticipants failing True (live signup) 1 =
     (None, live (signup\<lparr>participants := []\<rparr>),
      [Save 1, Send Participants_reset_removing, Typing, Send Roles_removed])"
proof -
  have reg: "tournaments (live signup) 1 = Some signup" by (simp add: live_def)
  have ph: "phase signup = Register \<or> phase signup = Checkin" by (simp add: signup_def)
  have norole: "participant_role signup = None" by (simp add: signup_def)
  from resetparticipants_without_role [OF reg ph norole, of failing]
  obtain t' w' where
    r: "tournamentfix_resetparticipants failing True (live signup) 1 =
       (None, w', [Save 1, Send Participants_reset_removing, Typing, Send Roles_removed])" and
    w: "tournaments w' = (tournaments (live signup))(1 \<mapsto> t')"
       "data w' = (data (live signup))(1 := Snapshot t')" and
    t: "participants t' = []" "t'\<lparr>participants := participants signup\<rparr> = signup"
    by blast
  have "t' = (t'\<lparr>participants := participants signup\<rparr>)\<lparr>participants := []\<rparr>"
    using t(1) by simp
  then have t': "t' = signup\<lparr>participants := []\<rparr>" using t(2) by simp
  have w': "w' = live (signup\<lparr>participants := []\<rparr>)"
    using w t' by (cases w') (auto simp: live_def fun_eq_iff)
  show ?thesis using reg ph norole r w' by (simp add: signup_def cup_def)
qed

subsection \<open>refresh\<close>

text \<open>
  C9. For a registered tournament in any phase, refresh writes the name and the limit
  fetched from the bracket service into the tournament and changes no other field:
  participants, matches, phase and the registration and check-in times are the ones it
  had, and the saved data is not written. When the fetch raises, the exception leaves
  the command and nothing is changed.
\<close>

theorem refresh_overwrites_name_and_limit:
  assumes reg: "tournaments w g = Some t"
  shows "case challonge_show env (t_id t) of
           Inl e \<Rightarrow> tournamentfix_refresh env w g = (Some (Raised e), w, [Challonge_show (t_id t)])
         | Inr d \<Rightarrow>
             (\<exists>t' w'.
                tournamentfix_refresh env w g =
                  (None, w', [Challonge_show (t_id t), Send Refreshed]) \<and>
                tournaments w' = (tournaments w)(g \<mapsto> t') \<and> data w' = data w \<and>
                name t' = data_name d \<and> limit t' = data_limit d \<and>
                participants t' = participants t \<and> matches t' = matches t \<and>
                phase t' = phase t \<and>
                register_start t' = register_start t \<and> register_stop t' = register_stop t \<and>
                checkin_start t' = checkin_start t \<and> checkin_stop t' = checkin_stop t \<and>
                t'\<lparr>name := name t, limit := limit t\<rparr> = t)"
proof (cases "challonge_show env (t_id t)")
  case (Inl e)
  then show ?thesis
    using reg by (simp add: tournamentfix_refresh_def only_phase_pass refresh_body_def)
next
  case (Inr d)
  let ?t' = "t\<lparr>name := data_name d, limit := data_limit d\<rparr>"
  have "tournamentfix_refresh env w g =
      (None, register_tournament g ?t' w, [Challonge_show (t_id t), Send Refreshed])"
    using reg Inr by (simp add: tournamentfix_refresh_def only_phase_pass refresh_body_def)
  then show ?thesis
    using Inr
    by (auto simp: register_tournament_def intro!: exI [of _ ?t']
        exI [of _ "register_tournament g ?t' w"])
qed

theorem refresh_overwrites_name_and_limit_witness:
  "tournaments (live cup) 1 = Some cup \<and>
   tournamentfix_refresh working (live cup) 1 =
     (None, (live cup)\<lparr>tournaments := [1 \<mapsto> cup\<lparr>name := ''final'', limit := Some 16\<rparr>]\<rparr>,
      [Challonge_show 7, Send Refreshed]) \<and>
   tournamentfix_refresh failing (live cup) 1 =
     (Some (Raised (Exception ''show'')), live cup, [Challonge_show 7])"
proof -
  have reg: "tournaments (live cup) 1 = Some cup" by (simp add: live_def)
  have id: "t_id cup = 7" by (simp add: cup_def)
  have f: "tournamentfix_refresh failing (live cup) 1 =
     (Some (Raised (Exception ''show'')), live cup, [Challonge_show 7])"
    using refresh_overwrites_name_and_limit [OF reg, of failing]
    by (simp add: failing_def id)
  from refresh_overwrites_name_and_limit [OF reg, of working]
  obtain t' w' where
    r: "tournamentfix_refresh working (live cup) 1 =
          (None, w', [Challonge_show 7, Send Refreshed])" and
    w: "tournaments w' = (tournaments (live cup))(1 \<mapsto> t')" "data w' = data (live cup)" and
    n: "name t' = ''final''" "limit t' = Some 16" and
    t: "t'\<lparr>name := name cup, limit := limit cup\<rparr> = cup"
    by (auto simp: working_def id)
  have "t' = (t'\<lparr>name := name cup, limit := limit cup\<rparr>)\<lparr>name := ''final'', limit := Some 16\<rparr>"
    using n by simp
  then have t': "t' = cup\<lparr>name := ''final'', limit := Some 16\<rparr>" using t by simp
  have w': "w' = (live cup)\<lparr>tournaments := [1 \<mapsto> cup\<lparr>name := ''final'', limit := Some 16\<rparr>]\<rparr>"
    using w t' by (cases w') (auto simp: live_def fun_eq_iff)
  show ?thesis using reg r w' f by simp
qed

subsection \<open>resumetask\<close>

text \<open>
  C5. For a registered tournament in phase ongoing whose loop is stopped, resumetask
  runs the tick once. When that run raises, the command logs the error and tells the
  operator; it makes no call to \<^verbatim>\<open>start_loop_task\<close> and does not report success; the
  tournament stays registered as the run left it, its loop still stopped and its phase
  still ongoing, and the saved data is as it was. When the run returns, the command
  calls \<^verbatim>\<open>start_loop_task\<close> before it reports success, and the registered tournament
  holds a loop handle.
\<close>

theorem resumetask_failed_dry_run:
  assumes reg: "tournaments w g = Some t" and ph: "phase t = Ongoing"
    and stopped: "task t = None"
  shows "\<exists>t1 d1 r.
     tick (answers env) g t (data w) = (t1, d1, r) \<and>
     (case r of
        Some e \<Rightarrow>
          tournamentfix_resumetask env w g =
            (None, w\<lparr>tournaments := (tournaments w)(g \<mapsto> t1)\<rparr>,
             [Typing, Run_loop_coro g, Log_error e, Send Resume_failed]) \<and>
          task t1 = None \<and> phase t1 = Ongoing
      | None \<Rightarrow>
          tournamentfix_resumetask env w g =
            (None,
             w\<lparr>tournaments := (tournaments w)(g \<mapsto> t1\<lparr>task := Some Loop_handle\<rparr>),
               data := (data w)(g := Snapshot t1)\<rparr>,
             [Typing, Run_loop_coro g, Sleep 2, Start_loop_task g, Send Resumed]))"
proof -
  obtain t1 d1 r where tk: "tick (answers env) g t (data w) = (t1, d1, r)"
    by (cases "tick (answers env) g t (data w)")
  have frame: "phase t1 = Ongoing" "task t1 = None"
    using tick_phase_task [of "answers env" g t "data w"] tk ph stopped by simp_all
  have d: "d1 = (case r of None \<Rightarrow> (data w)(g := Snapshot t1) | Some e \<Rightarrow> data w)"
    using tk by (rule tick_written)
  show ?thesis
  proof (cases r)
    case None
    then have "d1 = (data w)(g := Snapshot t1)" using d by simp
    then show ?thesis
      using None tk by (simp add: resumetask_registered [OF reg ph])
  next
    case (Some e)
    then have "d1 = data w" using d by simp
    then show ?thesis
      using Some tk frame by (simp add: resumetask_registered [OF reg ph])
  qed
qed

theorem resumetask_failed_dry_run_witness:
  "tournaments (live (cup\<lparr>task := None\<rparr>)) 1 = Some (cup\<lparr>task := None\<rparr>) \<and>
   phase (cup\<lparr>task := None\<rparr>) = Ongoing \<and> task (cup\<lparr>task := None\<rparr>) = None \<and>
   tournamentfix_resumetask failing (live (cup\<lparr>task := None\<rparr>)) 1 =
     (None, live (cup\<lparr>task := None\<rparr>),
      [Typing, Run_loop_coro 1, Log_error (Exception ''tick''), Send Resume_failed])"
proof -
  let ?t = "cup\<lparr>task := None\<rparr>"
  have reg: "tournaments (live ?t) 1 = Some ?t" by (simp add: live_def)
  have ph: "phase ?t = Ongoing" by (simp add: cup_def)
  have stopped: "task ?t = None" by simp
  from resumetask_failed_dry_run [OF reg ph stopped, of failing]
  obtain t1 d1 r where
    tk: "tick (answers failing) 1 ?t (data (live ?t)) = (t1, d1, r)" and
    c: "case r of
        Some e \<Rightarrow>
          tournamentfix_resumetask failing (live ?t) 1 =
            (None, (live ?t)\<lparr>tournaments := (tournaments (live ?t))(1 \<mapsto> t1)\<rparr>,
             [Typing, Run_loop_coro 1, Log_error e, Send Resume_failed]) \<and>
          task t1 = None \<and> phase t1 = Ongoing
      | None \<Rightarrow>
          tournamentfix_resumetask failing (live ?t) 1 =
            (None,
             (live ?t)\<lparr>tournaments := (tournaments (live ?t))(1 \<mapsto> t1\<lparr>task := Some Loop_handle\<rparr>),
               data := (data (live ?t))(1 := Snapshot t1)\<rparr>,
             [Typing, Run_loop_coro 1, Sleep 2, Start_loop_task 1, Send Resumed])"
    by blast
  have t1: "t1 = ?t" and r: "r = Some (Exception ''tick'')"
    using tk by (simp_all add: tick_failing_idle)
  show ?thesis using reg ph c by (simp add: t1 r live_def fun_eq_iff)
qed

subsection \<open>pausetask\<close>




end
